theory Spec2Isabelle
  imports Main "HOL-Library.Word"
begin

section \<open>Data model of sshtui\<close>

text \<open>
  The embedding follows the latest revision of each source file: the session engine with
  the connection timeout and the non-blocking completion signal (the revision of
  \<^verbatim>\<open>session.go\<close> that declares \<^verbatim>\<open>ConnectionTimeout\<close>), \<^verbatim>\<open>multi.go\<close>,
  \<^verbatim>\<open>forward.go\<close>, \<^verbatim>\<open>ui.go\<close> and the main loop.

  Bytes are 8-bit words. File descriptors, process ids and addresses of heap-allocated
  \<^verbatim>\<open>Session\<close> objects are natural numbers. A Go \<^verbatim>\<open>error\<close> value is represented by its
  message. A nil pointer is \<open>None\<close>.
\<close>

type_synonym byte = "8 word"
type_synonym fd = nat
type_synonym pid = nat
type_synonym ref = nat
type_synonym error = string
type_synonym winsize = "nat \<times> nat"

definition ScrollbackReplaySize :: nat where
  "ScrollbackReplaySize = 4096"

definition MaxScrollbackSize :: nat where
  "MaxScrollbackSize = 1024 * 1024"

definition StdinBufSize :: nat where
  "StdinBufSize = 1024"

definition PtyBufSize :: nat where
  "PtyBufSize = 4096"

text \<open>\<^verbatim>\<open>PortForward\<close> and \<^verbatim>\<open>SSHHost\<close> of the host directory. The field \<^verbatim>\<open>Alias\<close> of
  \<^verbatim>\<open>SSHHost\<close> is \<open>HostAlias\<close> here, because a record field name is global.\<close>

record PortForward =
  Type :: string
  LocalPort :: string
  RemoteAddr :: string

record SSHHost =
  HostAlias :: string
  HostName :: string
  User :: string
  Port :: string
  Forwards :: "PortForward list"

text \<open>\<^verbatim>\<open>os.ProcessState\<close>: \<^verbatim>\<open>Exited()\<close> is true when the program ended by calling exit and
  false when a signal ended it. \<^verbatim>\<open>exec.Cmd\<close>: \<^verbatim>\<open>Process\<close> is nil until the process is
  started, \<^verbatim>\<open>ProcessState\<close> is nil until a \<^verbatim>\<open>Wait\<close> has returned.\<close>

record os_ProcessState =
  Exited :: bool

record exec_Cmd =
  Args :: "string list"
  Process :: "pid option"
  ProcessState :: "os_ProcessState option"

record Session =
  ID :: int
  Alias :: string
  Cmd :: exec_Cmd
  PTY :: "fd option"
  Active :: bool
  Scrollback :: "byte list"

text \<open>What the program prints, one constructor for each print statement of the source
  (the box-drawing banners are named, their parameters kept).\<close>

datatype msg =
    MsgConnecting string
  | MsgConnectionTimeout nat
  | MsgErrorPressEnter error
  | MsgPanicRecovered
  | MsgSessionEnded
  | MsgClear
  | MsgConnectedBanner string
  | MsgScrollbackEnd
  | MsgError error
  | MsgDetached
  | MsgNoHosts
  | MsgEnterCommand
  | MsgDisplayMode
  | MsgLiveHeader string
  | MsgCollectingHeader
  | MsgResultsHeader string
  | MsgSeparator
  | MsgHost string
  | MsgErrorStarting error
  | MsgErrorLine error
  | MsgOutput string
  | MsgTick string
  | MsgExecutionComplete
  | MsgPressEnter
  | MsgActiveSessions
  | MsgBlankLine
  | MsgMenuSession nat string string
  | MsgForwardSession int string string
  | MsgForward PortForward
  | MsgInvalidSessionNumber int nat
  | MsgPressEnterContinue

text \<open>The observable effects of the program on its environment, in the order they happen.
  \<open>Spawn\<close> is the call of \<^verbatim>\<open>pty.Start\<close> on a command with the given argument vector;
  \<open>ReadLine\<close> is a \<^verbatim>\<open>ReadString('\n')\<close> on the controlling terminal; \<open>NotifyWinch\<close> and
  \<open>StopWinch\<close> open and cancel the subscription to resize notifications; \<open>LateStart\<close> is
  a call of \<^verbatim>\<open>pty.Start\<close> that starts its process, on a new pseudo-terminal, only after
  \<^verbatim>\<open>createSession\<close> has given up waiting for it.\<close>

datatype event =
    Print msg
  | StdoutWrite "byte list"
  | ReadLine
  | Spawn "string list"
  | Kill pid
  | Wait pid
  | PtyClose fd
  | PtyWrite "fd option" "byte list"
  | Setsize "fd option" winsize
  | NotifyWinch
  | StopWinch
  | MakeRaw
  | Restore
  | DrainStdin
  | LateStart fd pid

text \<open>The global state: the heap of \<^verbatim>\<open>Session\<close> objects, the registry \<^verbatim>\<open>sessions\<close> (a
  slice of pointers), \<^verbatim>\<open>nextID\<close>, the set of running exit-monitor tasks, the mode of the
  controlling terminal, and the trace of effects. Every address holds an object; the
  addresses below \<open>nextRef\<close> are the allocated ones.\<close>

record world =
  heap :: "ref \<Rightarrow> Session"
  nextRef :: ref
  sessions :: "ref list"
  nextID :: int
  monitors :: "ref list"
  raw :: bool
  out :: "event list"

definition emit :: "event list \<Rightarrow> world \<Rightarrow> world" where
  "emit evs w = w\<lparr>out := out w @ evs\<rparr>"

definition updSession :: "ref \<Rightarrow> (Session \<Rightarrow> Session) \<Rightarrow> world \<Rightarrow> world" where
  "updSession r f w = w\<lparr>heap := (heap w)(r := f (heap w r))\<rparr>"

section \<open>The attach engine\<close>

text \<open>One read of the pseudo-terminal or of the controlling terminal returns \<^verbatim>\<open>n\<close> bytes
  (at most \<open>PtyBufSize\<close> and \<open>StdinBufSize\<close> of them; the functions below take chunks of
  any length), or an error. One write to the pseudo-terminal succeeds, or fails after
  some of the bytes were written.\<close>

datatype read_result = Data "byte list" | ReadErr

datatype write_result = WriteOk | WriteErr nat

text \<open>The slice shown on attach: the last \<^verbatim>\<open>ScrollbackReplaySize\<close> bytes.\<close>

definition scrollbackToShow :: "byte list \<Rightarrow> byte list" where
  "scrollbackToShow sb =
     (if length sb > ScrollbackReplaySize
      then drop (length sb - ScrollbackReplaySize) sb
      else sb)"

definition replayScrollback :: "Session \<Rightarrow> world \<Rightarrow> world" where
  "replayScrollback session w =
     (if length (Scrollback session) > 0
      then emit [StdoutWrite (scrollbackToShow (Scrollback session)),
                 Print MsgScrollbackEnd] w
      else w)"

text \<open>The scan of a chunk for the detach byte (Ctrl+Space, value 0).\<close>

fun hasSentinel :: "byte list \<Rightarrow> bool" where
  "hasSentinel [] = False"
| "hasSentinel (b # bs) = (if b = 0 then True else hasSentinel bs)"

text \<open>One iteration of the stdin-to-pty task. The flag of the result says that the task
  has signalled completion on \<^verbatim>\<open>ioStop\<close> and returned.\<close>

definition stdinStep :: "ref \<Rightarrow> read_result \<Rightarrow> write_result \<Rightarrow> world \<Rightarrow> world \<times> bool" where
  "stdinStep r rd wr w =
     (case rd of
        ReadErr \<Rightarrow> (w, True)
      | Data buf \<Rightarrow>
          if hasSentinel buf then (w, True)
          else (case wr of
                  WriteOk \<Rightarrow> (emit [PtyWrite (PTY (heap w r)) buf] w, False)
                | WriteErr m \<Rightarrow> (emit [PtyWrite (PTY (heap w r)) (take m buf)] w, True)))"

text \<open>The statements on the scrollback in the pty-to-stdout task: append the chunk, then
  keep the last \<^verbatim>\<open>MaxScrollbackSize\<close> bytes.\<close>

definition captureChunk :: "byte list \<Rightarrow> byte list \<Rightarrow> byte list" where
  "captureChunk sb chunk =
     (let sb' = sb @ chunk
      in if length sb' > MaxScrollbackSize
         then drop (length sb' - MaxScrollbackSize) sb'
         else sb')"

text \<open>One iteration of the pty-to-stdout task.\<close>

definition ptyStep :: "ref \<Rightarrow> read_result \<Rightarrow> world \<Rightarrow> world \<times> bool" where
  "ptyStep r rd w =
     (case rd of
        ReadErr \<Rightarrow> (w, True)
      | Data buf \<Rightarrow>
          if length buf > 0
          then (updSession r (\<lambda>s. s\<lparr>Scrollback := captureChunk (Scrollback s) buf\<rparr>)
                  (emit [StdoutWrite buf] w), False)
          else (w, False))"

text \<open>Each task alone, over the results of its reads (and writes). The flag is false when
  the list is used up: the task is then blocked in its next read.\<close>

fun stdinToPty :: "ref \<Rightarrow> (read_result \<times> write_result) list \<Rightarrow> world \<Rightarrow> world \<times> bool" where
  "stdinToPty r [] w = (w, False)"
| "stdinToPty r ((rd, wr) # rest) w =
     (case stdinStep r rd wr w of
        (w', True) \<Rightarrow> (w', True)
      | (w', False) \<Rightarrow> stdinToPty r rest w')"

fun ptyToStdout :: "ref \<Rightarrow> read_result list \<Rightarrow> world \<Rightarrow> world \<times> bool" where
  "ptyToStdout r [] w = (w, False)"
| "ptyToStdout r (rd # rest) w =
     (case ptyStep r rd w of
        (w', True) \<Rightarrow> (w', True)
      | (w', False) \<Rightarrow> ptyToStdout r rest w')"

text \<open>The bytes that reached the pseudo-terminal, read off a trace.\<close>

fun ptyInput :: "event list \<Rightarrow> byte list" where
  "ptyInput [] = []"
| "ptyInput (PtyWrite f bs # evs) = bs @ ptyInput evs"
| "ptyInput (e # evs) = ptyInput evs"

text \<open>The two tasks and the resize handler running together: a schedule lists, in the
  order they happen, the iterations of the two tasks and the resize notifications (with
  the terminal size read then, if it could be read). The proxy runs until the first
  completion signal, at which the main flow of \<^verbatim>\<open>attachToSession\<close> resumes. A task that
  is still blocked in a read at that moment is not stopped by the code; what it does
  after the detach is not followed here.\<close>

datatype io_step =
    StdinRead read_result write_result
  | PtyRead read_result
  | Winch "winsize option"

fun ioProxy :: "ref \<Rightarrow> io_step list \<Rightarrow> world \<Rightarrow> world \<times> bool" where
  "ioProxy r [] w = (w, False)"
| "ioProxy r (Winch None # steps) w = ioProxy r steps w"
| "ioProxy r (Winch (Some ws) # steps) w =
     ioProxy r steps (emit [Setsize (PTY (heap w r)) ws] w)"
| "ioProxy r (StdinRead rd wr # steps) w =
     (case stdinStep r rd wr w of
        (w', True) \<Rightarrow> (w', True)
      | (w', False) \<Rightarrow> ioProxy r steps w')"
| "ioProxy r (PtyRead rd # steps) w =
     (case ptyStep r rd w of
        (w', True) \<Rightarrow> (w', True)
      | (w', False) \<Rightarrow> ioProxy r steps w')"

text \<open>What the environment decides during one attach: the size of the controlling
  terminal (if it can be read), the error of \<^verbatim>\<open>makeRaw\<close> (if any), and the schedule of
  the proxy.\<close>

record attach_env =
  termSize :: "winsize option"
  makeRawError :: "error option"
  schedule :: "io_step list"

text \<open>A call returns, or stays blocked on \<^verbatim>\<open>ioStop\<close> with the session attached (the
  schedule ended without a completion signal).\<close>

datatype run = Returned world | Attached world

fun worldOf :: "run \<Rightarrow> world" where
  "worldOf (Returned w) = w"
| "worldOf (Attached w) = w"

definition hasExited :: "Session \<Rightarrow> bool" where
  "hasExited session =
     (case ProcessState (Cmd session) of None \<Rightarrow> False | Some ps \<Rightarrow> Exited ps)"

text \<open>\<^verbatim>\<open>attachToSession\<close>. The deferred calls run in reverse order of registration: the
  terminal is restored to the mode saved by \<^verbatim>\<open>makeRaw\<close>, then the resize subscription
  is stopped.\<close>

definition attachToSession :: "ref \<Rightarrow> attach_env \<Rightarrow> world \<Rightarrow> run" where
  "attachToSession r env w =
     (let session = heap w r in
      if hasExited session
      then Returned (emit [Print MsgSessionEnded, ReadLine] w)
      else
        let w1 = emit [Print MsgClear, Print (MsgConnectedBanner (Alias session))] w;
            w2 = replayScrollback session w1;
            w3 = (case termSize env of
                    None \<Rightarrow> w2
                  | Some ws \<Rightarrow> emit [Setsize (PTY session) ws] w2);
            w4 = emit [NotifyWinch] w3
        in case makeRawError env of
             Some err \<Rightarrow> Returned (emit [Print (MsgError err), StopWinch] w4)
           | None \<Rightarrow>
               (case ioProxy r (schedule env) ((emit [MakeRaw] w4)\<lparr>raw := True\<rparr>) of
                  (w5, True) \<Rightarrow>
                    Returned ((emit [DrainStdin, Print MsgDetached, Restore, StopWinch] w5)
                                \<lparr>raw := raw w\<rparr>)
                | (w5, False) \<Rightarrow> Attached w5))"

section \<open>The session registry\<close>

text \<open>\<^verbatim>\<open>buildSSHArgs\<close>: the flags of the port forwards in list order, the alias last.\<close>

definition forwardArgs :: "PortForward \<Rightarrow> string list" where
  "forwardArgs fwd =
     (if Type fwd = ''L'' then [''-L'', LocalPort fwd @ '':'' @ RemoteAddr fwd]
      else if Type fwd = ''R'' then [''-R'', LocalPort fwd @ '':'' @ RemoteAddr fwd]
      else if Type fwd = ''D'' then [''-D'', LocalPort fwd]
      else [])"

definition buildSSHArgs :: "SSHHost \<Rightarrow> string list" where
  "buildSSHArgs host =
     foldl (\<lambda>args fwd. args @ forwardArgs fwd) [] (Forwards host) @ [HostAlias host]"

text \<open>\<^verbatim>\<open>createSession\<close> calls \<^verbatim>\<open>pty.Start\<close> in a task of its own and waits for the result
  or for the expiry of \<^verbatim>\<open>ConnectionTimeout\<close> (in seconds here). At the expiry the call of
  \<^verbatim>\<open>pty.Start\<close> is still pending, and the task that makes it is not cancelled:
  \<^item> \<open>ProcessSet p\<close>: \<^verbatim>\<open>cmd.Process\<close> is already set, the process \<open>p\<close> runs and only the
    result has not been delivered (it is delivered later into the buffered channel,
    which nobody reads any more);
  \<^item> \<open>StartedLate f p\<close>: \<^verbatim>\<open>cmd.Process\<close> is nil, and the pending call starts the process
    \<open>p\<close> on the pseudo-terminal \<open>f\<close> afterwards;
  \<^item> \<open>NotStarted\<close>: \<^verbatim>\<open>cmd.Process\<close> is nil, and the pending call fails or never returns.\<close>

datatype timeout_case =
    ProcessSet pid
  | StartedLate fd pid
  | NotStarted

text \<open>What the \<^verbatim>\<open>select\<close> of \<^verbatim>\<open>createSession\<close> receives first: the result of
  \<^verbatim>\<open>pty.Start\<close> (the pseudo-terminal and the started process, or an error), or the
  expiry of the timeout.\<close>

datatype start_outcome =
    Started fd pid
  | StartFailed error
  | TimedOut timeout_case

definition ConnectionTimeout :: nat where
  "ConnectionTimeout = 10"

text \<open>\<^verbatim>\<open>createSession\<close>. In the timeout branch the process is killed if \<^verbatim>\<open>cmd.Process\<close> is not
  nil; the effect of the pending call of \<^verbatim>\<open>pty.Start\<close>, which happens at some moment after
  that test, is put at the end of the trace of the call.\<close>

definition createSession :: "SSHHost \<Rightarrow> start_outcome \<Rightarrow> attach_env \<Rightarrow> world \<Rightarrow> run" where
  "createSession host sel env w =
     (let args = buildSSHArgs host;
          w1 = emit [Print (MsgConnecting (HostAlias host)), Spawn (''ssh'' # args)] w
      in case sel of
           TimedOut tc \<Rightarrow>
             Returned (emit (case tc of
                               ProcessSet p \<Rightarrow>
                                 [Kill p, Print (MsgConnectionTimeout ConnectionTimeout), ReadLine]
                             | StartedLate f p \<Rightarrow>
                                 [Print (MsgConnectionTimeout ConnectionTimeout), ReadLine,
                                  LateStart f p]
                             | NotStarted \<Rightarrow>
                                 [Print (MsgConnectionTimeout ConnectionTimeout), ReadLine]) w1)
         | StartFailed err \<Rightarrow>
             Returned (emit [Print (MsgErrorPressEnter err), ReadLine] w1)
         | Started ptmx p \<Rightarrow>
             let r = nextRef w1;
                 session = \<lparr>ID = nextID w1, Alias = HostAlias host,
                            Cmd = \<lparr>Args = ''ssh'' # args, Process = Some p,
                                   ProcessState = None\<rparr>,
                            PTY = Some ptmx, Active = True, Scrollback = []\<rparr>;
                 w2 = w1\<lparr>heap := (heap w1)(r := session), nextRef := Suc r,
                         sessions := sessions w1 @ [r], nextID := nextID w1 + 1,
                         monitors := monitors w1 @ [r]\<rparr>
             in attachToSession r env w2)"

text \<open>The exit-monitor task of the session at \<open>r\<close>, once \<^verbatim>\<open>cmd.Wait()\<close> has returned with
  the process state \<open>ps\<close>: it clears \<^verbatim>\<open>Active\<close> and ends.\<close>

definition monitorExit :: "ref \<Rightarrow> os_ProcessState \<Rightarrow> world \<Rightarrow> world" where
  "monitorExit r ps w =
     (updSession r (\<lambda>s. s\<lparr>Cmd := (Cmd s)\<lparr>ProcessState := Some ps\<rparr>, Active := False\<rparr>) w)
       \<lparr>monitors := removeAll r (monitors w)\<rparr>"

text \<open>The effects of closing one session: the pseudo-terminal is closed if it is not nil,
  the process is killed and waited for if it is not nil.\<close>

definition closeEvents :: "Session \<Rightarrow> event list" where
  "closeEvents s =
     (case PTY s of None \<Rightarrow> [] | Some f \<Rightarrow> [PtyClose f])
     @ (case Process (Cmd s) of None \<Rightarrow> [] | Some p \<Rightarrow> [Kill p, Wait p])"

text \<open>\<^verbatim>\<open>closeActiveSession\<close> (the process state that \<^verbatim>\<open>Cmd.Wait()\<close> leaves in the removed
  object is not tracked: the object is no longer in the registry): the loop runs \<^verbatim>\<open>i\<close> from \<^verbatim>\<open>len(sessions) - 1\<close> down to 0;
  \<open>closeActiveLoop (Suc i)\<close> is the iteration at index \<open>i\<close>.\<close>

fun closeActiveLoop :: "nat \<Rightarrow> world \<Rightarrow> world" where
  "closeActiveLoop 0 w = w"
| "closeActiveLoop (Suc i) w =
     (let s = heap w (sessions w ! i) in
      if Active s
      then (emit (closeEvents s) w)
             \<lparr>sessions := take i (sessions w) @ drop (Suc i) (sessions w)\<rparr>
      else closeActiveLoop i w)"

definition closeActiveSession :: "world \<Rightarrow> world" where
  "closeActiveSession w = closeActiveLoop (length (sessions w)) w"

definition closeAllSessions :: "world \<Rightarrow> world" where
  "closeAllSessions w = emit (concat (map (\<lambda>r. closeEvents (heap w r)) (sessions w))) w"

section \<open>Session numbers in the menu layer\<close>

definition status :: "Session \<Rightarrow> string" where
  "status s = (if hasExited s then ''ended'' else ''alive'')"

text \<open>The session list of \<^verbatim>\<open>showMenu\<close>: a heading, one line \<^verbatim>\<open>[!i+1] alias (status)\<close> for
  each index \<open>i\<close>, and a blank line.\<close>

definition showMenuSessions :: "world \<Rightarrow> event list" where
  "showMenuSessions w =
     (if length (sessions w) > 0
      then Print MsgActiveSessions
           # map (\<lambda>(i, r). Print (MsgMenuSession (i + 1) (Alias (heap w r)) (status (heap w r))))
               (enumerate 0 (sessions w))
           @ [Print MsgBlankLine]
      else [])"

text \<open>The command \<^verbatim>\<open>!num\<close> of the main loop.\<close>

definition resumeSession :: "int \<Rightarrow> attach_env \<Rightarrow> world \<Rightarrow> run" where
  "resumeSession num env w =
     (if num > 0 \<and> num \<le> int (length (sessions w))
      then attachToSession (sessions w ! nat (num - 1)) env w
      else Returned (emit [Print (MsgInvalidSessionNumber num (length (sessions w))),
                           Print MsgPressEnterContinue, ReadLine] w))"

text \<open>The list of active session forwards of \<^verbatim>\<open>manageForwards\<close>: for each session, the
  first host with the session's alias and at least one forward gives a line
  \<^verbatim>\<open>Session [!ID] alias (status)\<close> and one line for each forward.\<close>

definition forwardSessionLines :: "SSHHost list \<Rightarrow> world \<Rightarrow> event list" where
  "forwardSessionLines hosts w =
     concat (map (\<lambda>r.
        let session = heap w r in
        case find (\<lambda>host. HostAlias host = Alias session \<and> length (Forwards host) > 0) hosts of
          None \<Rightarrow> []
        | Some host \<Rightarrow>
            Print (MsgForwardSession (ID session) (Alias session) (status session))
            # map (\<lambda>fwd. Print (MsgForward fwd))
                (filter (\<lambda>fwd. Type fwd = ''L'' \<or> Type fwd = ''R'' \<or> Type fwd = ''D'')
                   (Forwards host)))
      (sessions w))"

section \<open>The multi-host executor\<close>

text \<open>\<^verbatim>\<open>HostResult\<close>; its field \<^verbatim>\<open>Alias\<close> is \<open>ResAlias\<close> here, its field \<^verbatim>\<open>Error\<close> is
  \<open>None\<close> for nil.\<close>

record HostResult =
  ResAlias :: string
  Output :: string
  Error :: "error option"

text \<open>What happens to the task of one host: \<^verbatim>\<open>pty.Start\<close> fails, or the command runs and
  its output is captured until the process exits.\<close>

datatype task_outcome = SpawnFailed error | Ran string

definition taskArgs :: "SSHHost \<Rightarrow> string \<Rightarrow> string list" where
  "taskArgs h command = ''ssh'' # buildSSHArgs h @ [command]"

text \<open>The tasks run concurrently. A run is described by the order in which the tasks
  finish (a list of indices into \<open>hosts\<close>) and by the outcome of each task; the effects of
  a task are placed at the point where it finishes. The task of an index outside \<open>hosts\<close>
  does not exist. The copy of the controlling terminal's input into the pseudo-terminal
  of a task, and the close of that pseudo-terminal and the wait for the process at the
  end of a task, are left out of the trace.\<close>

definition collectedTask ::
  "SSHHost list \<Rightarrow> string \<Rightarrow> (nat \<Rightarrow> task_outcome) \<Rightarrow> HostResult list \<times> world \<Rightarrow> nat
     \<Rightarrow> HostResult list \<times> world" where
  "collectedTask hosts command outcome st idx =
     (let (results, w) = st in
      if idx < length hosts
      then
        let h = hosts ! idx in
        case outcome idx of
          SpawnFailed err \<Rightarrow>
            (results[idx := \<lparr>ResAlias = HostAlias h, Output = [], Error = Some err\<rparr>],
             emit [Spawn (taskArgs h command)] w)
        | Ran output \<Rightarrow>
            (results[idx := \<lparr>ResAlias = HostAlias h, Output = output, Error = None\<rparr>],
             emit [Spawn (taskArgs h command), Print (MsgTick (HostAlias h))] w)
      else (results, w))"

text \<open>\<^verbatim>\<open>executeMultiHostCollected\<close> up to the return of \<^verbatim>\<open>wg.Wait()\<close>: the banner, then the
  tasks in the order they finish, on a results array of \<^verbatim>\<open>len(hosts)\<close> zero values.\<close>

definition collectResults ::
  "SSHHost list \<Rightarrow> string \<Rightarrow> (nat \<Rightarrow> task_outcome) \<Rightarrow> nat list \<Rightarrow> world
     \<Rightarrow> HostResult list \<times> world" where
  "collectResults hosts command outcome order w =
     foldl (collectedTask hosts command outcome)
       (replicate (length hosts) \<lparr>ResAlias = [], Output = [], Error = None\<rparr>,
        emit [Print MsgClear, Print MsgCollectingHeader] w)
       order"

text \<open>The section of one result in the final report.\<close>

definition resultSection :: "HostResult \<Rightarrow> event list" where
  "resultSection result =
     [Print MsgSeparator, Print (MsgHost (ResAlias result))]
     @ (case Error result of None \<Rightarrow> [] | Some err \<Rightarrow> [Print (MsgErrorLine err)])
     @ [Print (MsgOutput (Output result))]"

definition displayResults :: "string \<Rightarrow> HostResult list \<Rightarrow> event list" where
  "displayResults command results =
     [Print MsgClear, Print (MsgResultsHeader command)]
     @ concat (map resultSection results)
     @ [Print MsgSeparator, Print MsgPressEnter, ReadLine]"

definition executeMultiHostCollected ::
  "SSHHost list \<Rightarrow> string \<Rightarrow> (nat \<Rightarrow> task_outcome) \<Rightarrow> nat list \<Rightarrow> world \<Rightarrow> world" where
  "executeMultiHostCollected hosts command outcome order w =
     (let (results, w') = collectResults hosts command outcome order w
      in emit (displayResults command results) w')"

text \<open>\<^verbatim>\<open>executeMultiHostLive\<close>: each task prints its block, under the output mutex, when it
  finishes.\<close>

definition liveTask :: "SSHHost list \<Rightarrow> string \<Rightarrow> (nat \<Rightarrow> task_outcome) \<Rightarrow> nat \<Rightarrow> event list" where
  "liveTask hosts command outcome idx =
     (if idx < length hosts
      then
        let h = hosts ! idx in
        Spawn (taskArgs h command)
        # Print MsgSeparator
        # Print (MsgHost (HostAlias h))
        # (case outcome idx of
             SpawnFailed err \<Rightarrow> [Print (MsgErrorStarting err)]
           | Ran output \<Rightarrow> [Print (MsgOutput output)])
      else [])"

definition executeMultiHostLive ::
  "SSHHost list \<Rightarrow> string \<Rightarrow> (nat \<Rightarrow> task_outcome) \<Rightarrow> nat list \<Rightarrow> world \<Rightarrow> world" where
  "executeMultiHostLive hosts command outcome order w =
     emit ([Print MsgClear, Print (MsgLiveHeader command)]
           @ concat (map (liveTask hosts command outcome) order)
           @ [Print MsgSeparator, Print MsgExecutionComplete, ReadLine]) w"

text \<open>\<^verbatim>\<open>ReadString('\n')\<close> on the lines typed by the operator: the next line, or the
  empty string at the end of the input (the error is ignored by the callers).\<close>

fun nthLine :: "string list \<Rightarrow> nat \<Rightarrow> string" where
  "nthLine [] n = []"
| "nthLine (l # ls) 0 = l"
| "nthLine (l # ls) (Suc n) = nthLine ls n"

text \<open>\<^verbatim>\<open>executeMultiHost\<close>. The library function \<^verbatim>\<open>strings.TrimSpace\<close> is a parameter.\<close>

definition executeMultiHost ::
  "(string \<Rightarrow> string) \<Rightarrow> SSHHost list \<Rightarrow> string list \<Rightarrow> (nat \<Rightarrow> task_outcome) \<Rightarrow> nat list
     \<Rightarrow> world \<Rightarrow> world" where
  "executeMultiHost TrimSpace hosts input outcome order w =
     (if length hosts = 0
      then emit [Print MsgNoHosts, ReadLine] w
      else
        let w1 = emit [Print MsgEnterCommand, ReadLine] w;
            command = TrimSpace (nthLine input 0)
        in if command = []
           then w1
           else
             let w2 = emit [Print MsgDisplayMode, ReadLine] w1;
                 modeInput = TrimSpace (nthLine input 1)
             in if modeInput = ''1''
                then executeMultiHostLive hosts command outcome order w2
                else executeMultiHostCollected hosts command outcome order w2)"

text \<open>The white space of ASCII that \<^verbatim>\<open>strings.TrimSpace\<close> removes at both ends, to run
  \<open>executeMultiHost\<close> on concrete input.\<close>

definition isSpace :: "char \<Rightarrow> bool" where
  "isSpace c = (c \<in> set [CHR '' '', CHR 0x09, CHR 0x0A, CHR 0x0B, CHR 0x0C, CHR 0x0D])"

definition trimSpaceASCII :: "string \<Rightarrow> string" where
  "trimSpaceASCII s = rev (dropWhile isSpace (rev (dropWhile isSpace s)))"

section \<open>The system as a transition relation\<close>

text \<open>The operations of the system on the global state: the commands of the main loop
  that create, resume and close sessions and run a command on several hosts, the
  exit-monitor tasks, which run on their own, and the commands that only print (the menu,
  the scrollback pager, the list of forwards).\<close>

definition init :: world where
  "init = \<lparr>heap = (\<lambda>r. \<lparr>ID = 0, Alias = [], Cmd = \<lparr>Args = [], Process = None,
                          ProcessState = None\<rparr>, PTY = None, Active = False,
                          Scrollback = []\<rparr>),
           nextRef = 0, sessions = [], nextID = 1, monitors = [], raw = False, out = []\<rparr>"

inductive step :: "world \<Rightarrow> world \<Rightarrow> bool" where
  create: "step w (worldOf (createSession host sel env w))"
| resume: "step w (worldOf (resumeSession num env w))"
| closeActive: "step w (closeActiveSession w)"
| closeAll: "step w (closeAllSessions w)"
| monitor: "r \<in> set (monitors w) \<Longrightarrow> step w (monitorExit r ps w)"
| multi: "step w (executeMultiHost TrimSpace hosts input outcome order w)"
| display: "step w (emit evs w)"

definition reachable :: "world \<Rightarrow> bool" where
  "reachable w = step\<^sup>*\<^sup>* init w"

section \<open>Notions used in the statements\<close>

text \<open>Two states have the same registry; two states have heaps that differ at most in the
  scrollback of the sessions.\<close>

definition sameRegistry :: "world \<Rightarrow> world \<Rightarrow> bool" where
  "sameRegistry w w' =
     (sessions w' = sessions w \<and> nextID w' = nextID w \<and> nextRef w' = nextRef w
      \<and> monitors w' = monitors w)"

definition onlyScrollback :: "world \<Rightarrow> world \<Rightarrow> bool" where
  "onlyScrollback w w' =
     (\<forall>x. ID (heap w' x) = ID (heap w x) \<and> Alias (heap w' x) = Alias (heap w x)
          \<and> Cmd (heap w' x) = Cmd (heap w x) \<and> PTY (heap w' x) = PTY (heap w x)
          \<and> Active (heap w' x) = Active (heap w x))"

text \<open>What the task of host \<open>i\<close> stores in the results array, and what it does to the
  environment, read off the two branches of the task in \<^verbatim>\<open>executeMultiHostCollected\<close>.\<close>

definition hostResult :: "SSHHost list \<Rightarrow> (nat \<Rightarrow> task_outcome) \<Rightarrow> nat \<Rightarrow> HostResult" where
  "hostResult hosts outcome i =
     (case outcome i of
        SpawnFailed err \<Rightarrow> \<lparr>ResAlias = HostAlias (hosts ! i), Output = [], Error = Some err\<rparr>
      | Ran output \<Rightarrow> \<lparr>ResAlias = HostAlias (hosts ! i), Output = output, Error = None\<rparr>)"

definition taskEvents :: "SSHHost list \<Rightarrow> string \<Rightarrow> (nat \<Rightarrow> task_outcome) \<Rightarrow> nat \<Rightarrow> event list" where
  "taskEvents hosts command outcome i =
     (if i < length hosts
      then Spawn (taskArgs (hosts ! i) command)
           # (case outcome i of
                SpawnFailed err \<Rightarrow> []
              | Ran output \<Rightarrow> [Print (MsgTick (HostAlias (hosts ! i)))])
      else [])"

section \<open>Example runs\<close>

definition hostA :: SSHHost where
  "hostA = \<lparr>HostAlias = ''A'', HostName = ''a.example.org'', User = [], Port = [],
            Forwards = [\<lparr>Type = ''L'', LocalPort = ''8080'', RemoteAddr = ''remote:80''\<rparr>]\<rparr>"

definition hostB :: SSHHost where
  "hostB = \<lparr>HostAlias = ''B'', HostName = [], User = [], Port = [], Forwards = []\<rparr>"

definition hostC :: SSHHost where
  "hostC = \<lparr>HostAlias = ''C'', HostName = [], User = [], Port = [],
            Forwards = [\<lparr>Type = ''D'', LocalPort = ''1080'', RemoteAddr = []\<rparr>]\<rparr>"

text \<open>An attach in which the remote side prints two bytes and the operator then presses
  Ctrl+Space.\<close>

definition detachEnv :: attach_env where
  "detachEnv = \<lparr>termSize = Some (24, 80), makeRawError = None,
                schedule = [PtyRead (Data [104, 105]), StdinRead (Data [0]) WriteOk]\<rparr>"

text \<open>One session to host A; the same after its process has exited; the state after the
  operator connected to A, closed the session and connected to A again; three sessions of
  which the last one was ended by a signal.\<close>

definition oneSession :: world where
  "oneSession = worldOf (createSession hostA (Started 3 100) detachEnv init)"

definition sessionEnded :: world where
  "sessionEnded = monitorExit 0 \<lparr>Exited = True\<rparr> oneSession"

definition afterReconnect :: world where
  "afterReconnect =
     worldOf (createSession hostA (Started 4 101) detachEnv (closeActiveSession oneSession))"

definition threeSessions :: world where
  "threeSessions =
     monitorExit 2 \<lparr>Exited = False\<rparr>
       (worldOf (createSession hostC (Started 5 102) detachEnv
         (worldOf (createSession hostB (Started 4 101) detachEnv oneSession))))"

text \<open>The example session after a signal has ended its process, and an attach in which
  the read of the pseudo-terminal fails at once, as it does when the process is gone.\<close>

definition sessionKilled :: world where
  "sessionKilled = monitorExit 0 \<lparr>Exited = False\<rparr> oneSession"

definition deadPtyEnv :: attach_env where
  "deadPtyEnv = \<lparr>termSize = Some (24, 80), makeRawError = None,
                 schedule = [PtyRead ReadErr]\<rparr>"

definition outcomeABC :: "nat \<Rightarrow> task_outcome" where
  "outcomeABC i =
     (if i = 0 then Ran ''a'' else if i = 1 then SpawnFailed ''no pty'' else Ran ''c'')"

section \<open>Frame properties of the operations\<close>

lemma onlyScrollback_refl: "onlyScrollback w w"
  by (simp add: onlyScrollback_def)

lemma onlyScrollback_trans:
  "onlyScrollback w w' \<Longrightarrow> onlyScrollback w' w'' \<Longrightarrow> onlyScrollback w w''"
  by (simp add: onlyScrollback_def)

lemma emit_simps [simp]:
  "heap (emit evs w) = heap w" "sessions (emit evs w) = sessions w"
  "nextID (emit evs w) = nextID w" "nextRef (emit evs w) = nextRef w"
  "monitors (emit evs w) = monitors w" "raw (emit evs w) = raw w"
  "out (emit evs w) = out w @ evs"
  by (simp_all add: emit_def)

lemma replay_simps [simp]:
  "heap (replayScrollback s w) = heap w" "sessions (replayScrollback s w) = sessions w"
  "nextID (replayScrollback s w) = nextID w" "nextRef (replayScrollback s w) = nextRef w"
  "monitors (replayScrollback s w) = monitors w" "raw (replayScrollback s w) = raw w"
  by (simp_all add: replayScrollback_def)

lemma stdinStep_frame:
  "stdinStep r rd wr w = (w', b) \<Longrightarrow> sameRegistry w w' \<and> heap w' = heap w \<and> raw w' = raw w"
  by (auto simp: stdinStep_def sameRegistry_def split: read_result.splits if_splits write_result.splits)

lemma ptyStep_frame:
  "ptyStep r rd w = (w', b) \<Longrightarrow> sameRegistry w w' \<and> onlyScrollback w w' \<and> raw w' = raw w"
  by (auto simp: ptyStep_def updSession_def sameRegistry_def onlyScrollback_def
      split: read_result.splits if_splits)

lemma sameRegistry_trans: "sameRegistry w w' \<Longrightarrow> sameRegistry w' w'' \<Longrightarrow> sameRegistry w w''"
  by (simp add: sameRegistry_def)

lemma ioProxy_frame:
  "ioProxy r steps w = (w', b) \<Longrightarrow> sameRegistry w w' \<and> onlyScrollback w w' \<and> raw w' = raw w"
proof (induction r steps w arbitrary: w' b rule: ioProxy.induct)
  case (1 r w)
  then show ?case by (simp add: sameRegistry_def onlyScrollback_def)
next
  case (2 r steps w)
  then show ?case by simp
next
  case (3 r ws steps w)
  from 3 have "ioProxy r steps (emit [Setsize (PTY (heap w r)) ws] w) = (w', b)" by simp
  from "3.IH"[OF this] show ?case
    by (simp add: sameRegistry_def onlyScrollback_def)
next
  case (4 r rd wr steps w)
  obtain w1 b1 where s: "stdinStep r rd wr w = (w1, b1)" by (cases "stdinStep r rd wr w")
  note f = stdinStep_frame[OF s]
  show ?case
  proof (cases b1)
    case True
    with 4 s f show ?thesis by (auto simp: onlyScrollback_def)
  next
    case False
    with 4 s have "ioProxy r steps w1 = (w', b)" by simp
    from "4.IH"[OF s[symmetric] _ this] False f show ?thesis
      by (auto simp: sameRegistry_def onlyScrollback_def)
  qed
next
  case (5 r rd steps w)
  obtain w1 b1 where s: "ptyStep r rd w = (w1, b1)" by (cases "ptyStep r rd w")
  note f = ptyStep_frame[OF s]
  show ?case
  proof (cases b1)
    case True
    with 5 s f show ?thesis by auto
  next
    case False
    with 5 s have "ioProxy r steps w1 = (w', b)" by simp
    from "5.IH"[OF s[symmetric] _ this] False f show ?thesis
      using onlyScrollback_trans sameRegistry_trans by auto
  qed
qed

lemma attach_frame:
  "sameRegistry w (worldOf (attachToSession r env w))
   \<and> onlyScrollback w (worldOf (attachToSession r env w))"
  by (auto simp: attachToSession_def Let_def sameRegistry_def onlyScrollback_def
      split: option.splits prod.splits bool.splits dest!: ioProxy_frame)


lemma attach_simps [simp]:
  "sessions (worldOf (attachToSession r env w)) = sessions w"
  "nextID (worldOf (attachToSession r env w)) = nextID w"
  "nextRef (worldOf (attachToSession r env w)) = nextRef w"
  "monitors (worldOf (attachToSession r env w)) = monitors w"
  "ID (heap (worldOf (attachToSession r env w)) x) = ID (heap w x)"
  "Alias (heap (worldOf (attachToSession r env w)) x) = Alias (heap w x)"
  "Cmd (heap (worldOf (attachToSession r env w)) x) = Cmd (heap w x)"
  "PTY (heap (worldOf (attachToSession r env w)) x) = PTY (heap w x)"
  "Active (heap (worldOf (attachToSession r env w)) x) = Active (heap w x)"
  using attach_frame[of w r env] by (simp_all add: sameRegistry_def onlyScrollback_def)

lemma createSession_other_simps [simp]:
  "createSession host (TimedOut tc) env w =
     Returned (emit ([Print (MsgConnecting (HostAlias host)), Spawn (''ssh'' # buildSSHArgs host)]
                     @ (case tc of
                          ProcessSet p \<Rightarrow>
                            [Kill p, Print (MsgConnectionTimeout ConnectionTimeout), ReadLine]
                        | StartedLate f p \<Rightarrow>
                            [Print (MsgConnectionTimeout ConnectionTimeout), ReadLine, LateStart f p]
                        | NotStarted \<Rightarrow>
                            [Print (MsgConnectionTimeout ConnectionTimeout), ReadLine])) w)"
  "createSession host (StartFailed err) env w =
     Returned (emit [Print (MsgConnecting (HostAlias host)), Spawn (''ssh'' # buildSSHArgs host),
                     Print (MsgErrorPressEnter err), ReadLine] w)"
  by (simp_all add: createSession_def Let_def emit_def split: timeout_case.splits)

lemma createSession_Started_simps:
  "sessions (worldOf (createSession host (Started f p) env w)) = sessions w @ [nextRef w]"
  "nextID (worldOf (createSession host (Started f p) env w)) = nextID w + 1"
  "nextRef (worldOf (createSession host (Started f p) env w)) = Suc (nextRef w)"
  "monitors (worldOf (createSession host (Started f p) env w)) = monitors w @ [nextRef w]"
  "ID (heap (worldOf (createSession host (Started f p) env w)) x)
     = (if x = nextRef w then nextID w else ID (heap w x))"
  "Alias (heap (worldOf (createSession host (Started f p) env w)) x)
     = (if x = nextRef w then HostAlias host else Alias (heap w x))"
  "Active (heap (worldOf (createSession host (Started f p) env w)) x)
     = (x = nextRef w \<or> Active (heap w x))"
  "PTY (heap (worldOf (createSession host (Started f p) env w)) x)
     = (if x = nextRef w then Some f else PTY (heap w x))"
  "Cmd (heap (worldOf (createSession host (Started f p) env w)) x)
     = (if x = nextRef w
        then \<lparr>Args = ''ssh'' # buildSSHArgs host, Process = Some p, ProcessState = None\<rparr>
        else Cmd (heap w x))"
  by (simp_all add: createSession_def Let_def)

lemma closeActiveLoop_frame [simp]:
  "heap (closeActiveLoop n w) = heap w" "nextID (closeActiveLoop n w) = nextID w"
  "nextRef (closeActiveLoop n w) = nextRef w" "monitors (closeActiveLoop n w) = monitors w"
  "raw (closeActiveLoop n w) = raw w"
  by (induction n) (simp_all add: Let_def)

lemma collect_frame:
  "heap (snd (foldl (collectedTask hosts c oc) st order)) = heap (snd st)
   \<and> sessions (snd (foldl (collectedTask hosts c oc) st order)) = sessions (snd st)
   \<and> nextID (snd (foldl (collectedTask hosts c oc) st order)) = nextID (snd st)
   \<and> nextRef (snd (foldl (collectedTask hosts c oc) st order)) = nextRef (snd st)
   \<and> monitors (snd (foldl (collectedTask hosts c oc) st order)) = monitors (snd st)
   \<and> raw (snd (foldl (collectedTask hosts c oc) st order)) = raw (snd st)"
proof (induction order arbitrary: st)
  case Nil
  then show ?case by simp
next
  case (Cons i order)
  have "heap (snd (collectedTask hosts c oc st i)) = heap (snd st)
      \<and> sessions (snd (collectedTask hosts c oc st i)) = sessions (snd st)
      \<and> nextID (snd (collectedTask hosts c oc st i)) = nextID (snd st)
      \<and> nextRef (snd (collectedTask hosts c oc st i)) = nextRef (snd st)
      \<and> monitors (snd (collectedTask hosts c oc st i)) = monitors (snd st)
      \<and> raw (snd (collectedTask hosts c oc st i)) = raw (snd st)"
    by (cases st) (simp add: collectedTask_def Let_def split: task_outcome.splits)
  with Cons.IH[of "collectedTask hosts c oc st i"] show ?case by simp
qed

lemma multi_frame [simp]:
  "heap (executeMultiHost T hosts input oc order w) = heap w"
  "sessions (executeMultiHost T hosts input oc order w) = sessions w"
  "nextID (executeMultiHost T hosts input oc order w) = nextID w"
  "nextRef (executeMultiHost T hosts input oc order w) = nextRef w"
  "monitors (executeMultiHost T hosts input oc order w) = monitors w"
  "raw (executeMultiHost T hosts input oc order w) = raw w"
  using collect_frame[of hosts "T (nthLine input 0)" oc
      "(replicate (length hosts) \<lparr>ResAlias = [], Output = [], Error = None\<rparr>,
        emit [Print MsgClear, Print MsgCollectingHeader]
          (emit [Print MsgDisplayMode, ReadLine] (emit [Print MsgEnterCommand, ReadLine] w)))" order]
  by (simp_all add: executeMultiHost_def executeMultiHostLive_def executeMultiHostCollected_def
      collectResults_def Let_def split_beta)

lemma step_frame:
  assumes "step w w'"
  shows "nextRef w \<le> nextRef w'"
    and "r < nextRef w \<Longrightarrow> Active (heap w' r) \<Longrightarrow> Active (heap w r)"
    and "r < nextRef w \<Longrightarrow> r \<in> set (monitors w') \<Longrightarrow> r \<in> set (monitors w)"
    and "r < nextRef w \<Longrightarrow> Active (heap w r) \<Longrightarrow> \<not> Active (heap w' r) \<Longrightarrow>
           (\<exists>ps. w' = monitorExit r ps w) \<and> r \<in> set (monitors w) \<and> r \<notin> set (monitors w')"
  using assms
proof (induction rule: step.induct)
  case (create w host sel env)
  {
    case 1 show ?case by (cases sel) (simp_all add: createSession_Started_simps)
  next
    case 2 then show ?case by (cases sel) (simp_all add: createSession_Started_simps)
  next
    case 3 then show ?case by (cases sel) (simp_all add: createSession_Started_simps)
  next
    case 4 then show ?case by (cases sel) (simp_all add: createSession_Started_simps)
  }
next
  case (resume w num env)
  {
    case 1 show ?case by (simp add: resumeSession_def)
  next
    case 2 then show ?case by (simp add: resumeSession_def split: if_splits)
  next
    case 3 then show ?case by (simp add: resumeSession_def split: if_splits)
  next
    case 4 then show ?case by (simp add: resumeSession_def split: if_splits)
  }
next
  case (closeActive w)
  {
    case 1 show ?case by (simp add: closeActiveSession_def)
  next
    case 2 then show ?case by (simp add: closeActiveSession_def)
  next
    case 3 then show ?case by (simp add: closeActiveSession_def)
  next
    case 4 then show ?case by (simp add: closeActiveSession_def)
  }
next
  case (closeAll w)
  {
    case 1 show ?case by (simp add: closeAllSessions_def)
  next
    case 2 then show ?case by (simp add: closeAllSessions_def)
  next
    case 3 then show ?case by (simp add: closeAllSessions_def)
  next
    case 4 then show ?case by (simp add: closeAllSessions_def)
  }
next
  case (monitor r0 w ps)
  {
    case 1 show ?case by (simp add: monitorExit_def updSession_def)
  next
    case 2 then show ?case by (simp add: monitorExit_def updSession_def split: if_splits)
  next
    case 3 then show ?case by (simp add: monitorExit_def updSession_def split: if_splits)
  next
    case 4 
    then have "r = r0" by (simp add: monitorExit_def updSession_def split: if_splits)
    with monitor show ?case by (auto simp: monitorExit_def)
  }
next
  case (multi w T hosts input oc order)
  {
    case 1 show ?case by simp
  next
    case 2 then show ?case by simp
  next
    case 3 then show ?case by simp
  next
    case 4 then show ?case by simp
  }
next
  case (display w evs)
  {
    case 1 show ?case by simp
  next
    case 2 then show ?case by simp
  next
    case 3 then show ?case by simp
  next
    case 4 then show ?case by simp
  }
qed

lemma steps_frame:
  assumes "step\<^sup>*\<^sup>* w w'"
  shows "nextRef w \<le> nextRef w'"
    and "r < nextRef w \<Longrightarrow> \<not> Active (heap w r) \<Longrightarrow> \<not> Active (heap w' r)"
    and "r < nextRef w \<Longrightarrow> r \<notin> set (monitors w) \<Longrightarrow> r \<notin> set (monitors w')"
  using assms
proof (induction rule: rtranclp_induct)
  case base
  { case 1 show ?case by simp
  next case 2 then show ?case by simp
  next case 3 then show ?case by simp }
next
  case (step y z)
  { case 1 from step.IH(1) step_frame(1)[OF step.hyps(2)] show ?case by simp
  next
    case 2
    from step.IH(2)[OF 2] have "\<not> Active (heap y r)" .
    moreover from 2 step.IH(1) have "r < nextRef y" by simp
    ultimately show ?case using step_frame(2)[OF step.hyps(2)] by blast
  next
    case 3
    from step.IH(3)[OF 3] have "r \<notin> set (monitors y)" .
    moreover from 3 step.IH(1) have "r < nextRef y" by simp
    ultimately show ?case using step_frame(3)[OF step.hyps(2)] by blast }
qed

lemma oneSession_simps:
  "sessions oneSession = [0]" "nextRef oneSession = 1" "monitors oneSession = [0]"
  "Active (heap oneSession 0)" "nextID oneSession = 2" "ID (heap oneSession 0) = 1"
  by (simp_all add: oneSession_def createSession_Started_simps init_def)

lemma sessionEnded_simps:
  "sessions sessionEnded = [0]" "nextRef sessionEnded = 1" "monitors sessionEnded = []"
  "\<not> Active (heap sessionEnded 0)" "hasExited (heap sessionEnded 0)"
  by (simp_all add: sessionEnded_def monitorExit_def updSession_def oneSession_simps hasExited_def)

section \<open>Scrollback truncation\<close>

lemma captureChunk_eq:
  "captureChunk sb c = drop (length (sb @ c) - MaxScrollbackSize) (sb @ c)"
  by (simp add: captureChunk_def Let_def)

lemma drop_tail_append:
  "drop (length (drop (length a - m) a @ b) - m) (drop (length a - m) a @ b)
     = drop (length (a @ b) - m) (a @ b)"
  by (cases "length a \<le> m") (auto simp: add.commute)

lemma ptyStep_Data:
  "ptyStep r (Data c) w = (w', b) \<Longrightarrow> length (Scrollback (heap w r)) \<le> MaxScrollbackSize \<Longrightarrow>
    \<not> b \<and> Scrollback (heap w' r) =
      drop (length (Scrollback (heap w r) @ c) - MaxScrollbackSize) (Scrollback (heap w r) @ c)"
  by (auto simp: ptyStep_def updSession_def emit_def captureChunk_eq split: if_splits)

lemma ptyToStdout_Data:
  "length (Scrollback (heap w r)) \<le> MaxScrollbackSize \<Longrightarrow>
   ptyToStdout r (map Data cs) w = (w', b) \<Longrightarrow>
    \<not> b \<and> Scrollback (heap w' r) =
      drop (length (Scrollback (heap w r) @ concat cs) - MaxScrollbackSize)
        (Scrollback (heap w r) @ concat cs)"
proof (induction cs arbitrary: w)
  case Nil
  then show ?case by simp
next
  case (Cons c cs)
  obtain w1 b1 where s: "ptyStep r (Data c) w = (w1, b1)" by (cases "ptyStep r (Data c) w")
  from ptyStep_Data[OF s Cons.prems(1)] have b1: "\<not> b1"
    and sb1: "Scrollback (heap w1 r) =
      drop (length (Scrollback (heap w r) @ c) - MaxScrollbackSize) (Scrollback (heap w r) @ c)"
    by simp_all
  have len1: "length (Scrollback (heap w1 r)) \<le> MaxScrollbackSize"
    unfolding sb1 by simp
  from Cons.prems(2) s b1 have "ptyToStdout r (map Data cs) w1 = (w', b)" by simp
  from Cons.IH[OF len1 this] have "\<not> b" and
    "Scrollback (heap w' r) =
      drop (length (Scrollback (heap w1 r) @ concat cs) - MaxScrollbackSize)
        (Scrollback (heap w1 r) @ concat cs)" by simp_all
  then show ?case unfolding sb1
    using drop_tail_append[of "Scrollback (heap w r) @ c" MaxScrollbackSize "concat cs"] by simp
qed

text \<open>
  C1 (scrollback truncation law). The pty-to-stdout task of the session at \<open>r\<close> reads the
  chunks \<open>chunks\<close>, starting from a scrollback within the ceiling (a new session has the
  empty scrollback). The task does not stop, and with \<open>total\<close> the bytes captured so far
  followed by all the chunks: if \<open>total\<close> is longer than 1 MiB the scrollback is exactly
  the last \<open>1024 * 1024\<close> bytes of \<open>total\<close>, and otherwise it is \<open>total\<close>.
\<close>

theorem scrollback_truncation_law:
  assumes "length (Scrollback (heap w r)) \<le> MaxScrollbackSize"
  shows "let total = Scrollback (heap w r) @ concat chunks;
             (w', stopped) = ptyToStdout r (map Data chunks) w
         in \<not> stopped
            \<and> (length total > MaxScrollbackSize \<longrightarrow>
                 Scrollback (heap w' r) = drop (length total - MaxScrollbackSize) total
                 \<and> length (Scrollback (heap w' r)) = MaxScrollbackSize)
            \<and> (length total \<le> MaxScrollbackSize \<longrightarrow> Scrollback (heap w' r) = total)"
proof -
  obtain w' b where run: "ptyToStdout r (map Data chunks) w = (w', b)"
    by (cases "ptyToStdout r (map Data chunks) w")
  define total where "total = Scrollback (heap w r) @ concat chunks"
  from ptyToStdout_Data[OF assms run]
  have nb: "\<not> b" and sb: "Scrollback (heap w' r) = drop (length total - MaxScrollbackSize) total"
    unfolding total_def by simp_all
  have "length total > MaxScrollbackSize \<Longrightarrow> length (Scrollback (heap w' r)) = MaxScrollbackSize"
    unfolding sb by simp
  moreover have "length total \<le> MaxScrollbackSize \<Longrightarrow> Scrollback (heap w' r) = total"
    unfolding sb by simp
  ultimately show ?thesis
    unfolding Let_def run total_def[symmetric] using nb sb by simp
qed

text \<open>Witness: 256 chunks of 4096 bytes and one more byte lose exactly the first byte;
  three bytes in two chunks are kept whole.\<close>

theorem scrollback_truncation_law_witness:
  "length (Scrollback (heap init 0)) \<le> MaxScrollbackSize
   \<and> length (concat (replicate 256 (replicate 4096 (7::byte)) @ [[1]])) > MaxScrollbackSize
   \<and> Scrollback (heap (fst (ptyToStdout 0 (map Data (replicate 256 (replicate 4096 7) @ [[1]])) init)) 0)
        = drop 1 (concat (replicate 256 (replicate 4096 7) @ [[1]]))
   \<and> length (concat [[1::byte, 2], [3]]) \<le> MaxScrollbackSize
   \<and> Scrollback (heap (fst (ptyToStdout 0 (map Data [[1, 2], [3]]) init)) 0) = [1, 2, 3]"
proof -
  have h: "length (Scrollback (heap init 0)) \<le> MaxScrollbackSize" by (simp add: init_def)
  have e: "Scrollback (heap init 0) = []" by (simp add: init_def)
  have l: "length (concat (replicate 256 (replicate 4096 (7::byte)) @ [[1]])) = Suc MaxScrollbackSize"
    by (simp add: length_concat sum_list_replicate MaxScrollbackSize_def)
  show ?thesis
    using scrollback_truncation_law[OF h, of "replicate 256 (replicate 4096 7) @ [[1]]"]
          scrollback_truncation_law[OF h, of "[[1, 2], [3]]"] l
    unfolding e
    by (simp add: Let_def split_beta MaxScrollbackSize_def del: length_append)
qed

section \<open>The detach sentinel\<close>

lemma hasSentinel_iff: "hasSentinel buf = (0 \<in> set buf)"
  by (induction buf) auto

lemma ptyInput_append: "ptyInput (xs @ ys) = ptyInput xs @ ptyInput ys"
  by (induction xs rule: ptyInput.induct) simp_all

lemma stdinToPty_clean:
  "\<forall>c \<in> set pre. \<not> hasSentinel c \<Longrightarrow>
   stdinToPty r (map (\<lambda>c. (Data c, WriteOk)) pre @ rest) w
     = stdinToPty r rest (emit (map (PtyWrite (PTY (heap w r))) pre) w)"
proof (induction pre arbitrary: w)
  case Nil
  then show ?case by (simp add: emit_def)
next
  case (Cons c pre)
  then show ?case by (simp add: stdinStep_def emit_def)
qed

text \<open>
  C2 (detach sentinel forwarding), as the code has it. The stdin-to-pty task scans each
  chunk it has read before it writes anything of it. When the chunks \<open>pre\<close> read first
  hold no byte 0 and are written without error, and the next chunk \<open>c\<close> holds a byte 0,
  the task forwards exactly the chunks \<open>pre\<close>, forwards nothing of \<open>c\<close> (neither the
  sentinel nor the bytes before or after it in \<open>c\<close>) and nothing of what follows, and
  signals completion.
\<close>

theorem detach_sentinel_chunks:
  assumes "\<forall>c \<in> set pre. \<not> hasSentinel c" and "hasSentinel c"
  shows "let (w', stopped) = stdinToPty r (map (\<lambda>c. (Data c, WriteOk)) pre @ (Data c, wr) # rest) w
         in stopped
            \<and> w' = emit (map (PtyWrite (PTY (heap w r))) pre) w
            \<and> ptyInput (out w') = ptyInput (out w) @ concat pre"
proof -
  have "ptyInput (map (PtyWrite f) pre) = concat pre" for f
    by (induction pre) simp_all
  with assms show ?thesis
    by (simp add: stdinToPty_clean stdinStep_def ptyInput_append)
qed

text \<open>Witness: \<^verbatim>\<open>ls\<close>, Enter, then a chunk with Ctrl+Space in the middle.\<close>

theorem detach_sentinel_chunks_witness:
  "\<not> hasSentinel [108, 115] \<and> \<not> hasSentinel [10] \<and> hasSentinel [113, 0, 120]
   \<and> stdinToPty 0 [(Data [108, 115], WriteOk), (Data [10], WriteOk), (Data [113, 0, 120], WriteOk),
                    (Data [121], WriteOk)] oneSession
       = (emit [PtyWrite (Some 3) [108, 115], PtyWrite (Some 3) [10]] oneSession, True)"
proof -
  have h1: "\<forall>c \<in> set [[108, 115], [10::byte]]. \<not> hasSentinel c" by simp
  have h2: "hasSentinel [113, 0, 120]" by simp
  have p: "PTY (heap oneSession 0) = Some 3"
    by (simp add: oneSession_def createSession_Started_simps init_def)
  from detach_sentinel_chunks[OF h1 h2, of 0 WriteOk "[(Data [121], WriteOk)]" oneSession]
  have "stdinToPty 0 [(Data [108, 115], WriteOk), (Data [10], WriteOk),
          (Data [113, 0, 120], WriteOk), (Data [121], WriteOk)] oneSession
       = (emit [PtyWrite (Some 3) [108, 115], PtyWrite (Some 3) [10]] oneSession, True)"
    by (simp add: p split_beta prod_eq_iff del: stdinToPty.simps)
  with h1 h2 show ?thesis by simp
qed

text \<open>The claim as written fails when the sentinel is not the first byte of its chunk:
  of the input \<^verbatim>\<open>a b 0\<close> read as one chunk nothing is forwarded, although two bytes
  precede the sentinel.\<close>

theorem detach_sentinel_counterexample:
  "ptyInput (out (fst (stdinToPty 0 [(Data [97, 98, 0], WriteOk)] init)))
     \<noteq> takeWhile (\<lambda>b. b \<noteq> 0) (concat [[97, 98, 0]])"
  by (simp add: stdinStep_def init_def)

section \<open>Connection timeout\<close>

text \<open>On every timeout \<^verbatim>\<open>createSession\<close> returns with the registry, \<^verbatim>\<open>nextID\<close>, the heap, the
  monitors and the terminal mode unchanged; and a process that \<^verbatim>\<open>cmd.Process\<close> holds at
  the expiry is killed before the timeout message is printed.\<close>

lemma createSession_timeout_registry:
  "let w' = worldOf (createSession host (TimedOut tc) env w)
   in createSession host (TimedOut tc) env w = Returned w'
      \<and> sessions w' = sessions w \<and> nextID w' = nextID w \<and> heap w' = heap w
      \<and> nextRef w' = nextRef w \<and> monitors w' = monitors w \<and> raw w' = raw w"
  by (simp add: Let_def)

lemma createSession_timeout_kills_set_process:
  "out (worldOf (createSession host (TimedOut (ProcessSet p)) env w))
     = out w @ [Print (MsgConnecting (HostAlias host)), Spawn (''ssh'' # buildSSHArgs host),
                Kill p, Print (MsgConnectionTimeout ConnectionTimeout), ReadLine]"
  by simp

text \<open>
  C3 (connection timeout atomicity). The first connection, to host A, times out while
  \<^verbatim>\<open>cmd.Process\<close> is still nil, and the pending call of \<^verbatim>\<open>pty.Start\<close> starts the process
  101 afterwards. \<^verbatim>\<open>createSession\<close> prints the timeout message and returns with the
  registry and \<^verbatim>\<open>nextID\<close> as before, but it kills nothing: the process 101 is started
  and is not killed, and since it belongs to no session, closing all sessions at
  shutdown does not kill it either.
\<close>

theorem timeout_late_start_not_killed:
  "createSession hostA (TimedOut (StartedLate 3 101)) detachEnv init
     = Returned (emit [Print (MsgConnecting ''A''),
                       Spawn [''ssh'', ''-L'', ''8080:remote:80'', ''A''],
                       Print (MsgConnectionTimeout 10), ReadLine, LateStart 3 101] init)
   \<and> sessions (worldOf (createSession hostA (TimedOut (StartedLate 3 101)) detachEnv init)) = []
   \<and> nextID (worldOf (createSession hostA (TimedOut (StartedLate 3 101)) detachEnv init)) = 1
   \<and> Kill 101 \<notin> set (out (worldOf (createSession hostA (TimedOut (StartedLate 3 101))
                                      detachEnv init)))
   \<and> Kill 101 \<notin> set (out (closeAllSessions
                             (worldOf (createSession hostA (TimedOut (StartedLate 3 101))
                                        detachEnv init))))"
  by (simp add: closeAllSessions_def)
     (simp add: hostA_def buildSSHArgs_def forwardArgs_def ConnectionTimeout_def init_def)

section \<open>Replay on attach\<close>

text \<open>
  C5 (replay bound). The replay of \<^verbatim>\<open>attachToSession\<close> writes the slice
  \<open>scrollbackToShow\<close> of the scrollback, followed by the marker line, and writes nothing
  when the scrollback is empty. The slice is at most 4096 bytes long and is the whole
  scrollback when that holds at most 4096 bytes (so also when it holds fewer); the heap,
  and with it the scrollback, is not changed.
\<close>

theorem replay_bound:
  "let shown = scrollbackToShow (Scrollback session) in
     replayScrollback session w =
       emit (if Scrollback session = [] then []
             else [StdoutWrite shown, Print MsgScrollbackEnd]) w
     \<and> length shown \<le> ScrollbackReplaySize
     \<and> (length (Scrollback session) \<le> ScrollbackReplaySize \<longrightarrow> shown = Scrollback session)
     \<and> heap (replayScrollback session w) = heap w"
  by (simp add: Let_def replayScrollback_def scrollbackToShow_def emit_def)

lemma oneSession_scrollback: "Scrollback (heap oneSession 0) = [104, 105]"
  by (simp add: oneSession_def createSession_def Let_def attachToSession_def hasExited_def
      detachEnv_def init_def ptyStep_def stdinStep_def updSession_def captureChunk_def
      MaxScrollbackSize_def)

text \<open>Witness: the two bytes captured in the example session are replayed whole.\<close>

theorem replay_bound_witness:
  "length (Scrollback (heap oneSession 0)) \<le> ScrollbackReplaySize
   \<and> replayScrollback (heap oneSession 0) oneSession
       = emit [StdoutWrite [104, 105], Print MsgScrollbackEnd] oneSession"
  using replay_bound[of "heap oneSession 0" oneSession]
  by (simp add: Let_def oneSession_scrollback ScrollbackReplaySize_def)

section \<open>Closing the active session\<close>

lemma closeActiveLoop_none:
  "\<forall>j<n. \<not> Active (heap w (sessions w ! j)) \<Longrightarrow> closeActiveLoop n w = w"
  by (induction n) (simp_all add: Let_def)

lemma closeActiveLoop_last:
  "k < n \<Longrightarrow> Active (heap w (sessions w ! k)) \<Longrightarrow>
   \<forall>j. k < j \<and> j < n \<longrightarrow> \<not> Active (heap w (sessions w ! j)) \<Longrightarrow>
   closeActiveLoop n w =
     (emit (closeEvents (heap w (sessions w ! k))) w)
       \<lparr>sessions := take k (sessions w) @ drop (Suc k) (sessions w)\<rparr>"
proof (induction n)
  case 0
  then show ?case by simp
next
  case (Suc n)
  show ?case
  proof (cases "k = n")
    case True
    with Suc.prems show ?thesis by (simp add: Let_def)
  next
    case False
    with Suc.prems have "k < n" and "\<not> Active (heap w (sessions w ! n))" by auto
    with Suc show ?thesis by (simp add: Let_def)
  qed
qed

text \<open>
  C6 (closeActive selection and no-op). When no session of the registry is active,
  \<^verbatim>\<open>closeActiveSession\<close> leaves the state as it is. When \<open>k\<close> is the last index whose
  session is active, it closes the pseudo-terminal of that session, kills and waits for
  its process, and removes index \<open>k\<close> from the registry, and nothing else changes. In
  every case the heap, and so every \<^verbatim>\<open>Session\<close> object, is untouched.
\<close>

theorem closeActive_last_active:
  "((\<forall>r \<in> set (sessions w). \<not> Active (heap w r)) \<longrightarrow> closeActiveSession w = w)
   \<and> (k < length (sessions w) \<longrightarrow> Active (heap w (sessions w ! k)) \<longrightarrow>
       (\<forall>j. k < j \<and> j < length (sessions w) \<longrightarrow> \<not> Active (heap w (sessions w ! j))) \<longrightarrow>
       closeActiveSession w =
         (emit (closeEvents (heap w (sessions w ! k))) w)
           \<lparr>sessions := take k (sessions w) @ drop (Suc k) (sessions w)\<rparr>)
   \<and> heap (closeActiveSession w) = heap w"
  using closeActiveLoop_none[of "length (sessions w)" w]
        closeActiveLoop_last[of k "length (sessions w)" w]
  by (simp add: closeActiveSession_def)

lemma threeSessions_simps:
  "sessions threeSessions = [0, Suc 0, 2]" "Active (heap threeSessions 0)"
  "Active (heap threeSessions (Suc 0))" "\<not> Active (heap threeSessions 2)"
  "PTY (heap threeSessions (Suc 0)) = Some 4"
  "Process (Cmd (heap threeSessions (Suc 0))) = Some 101"
  by (simp_all add: threeSessions_def monitorExit_def updSession_def
      createSession_Started_simps oneSession_simps)

text \<open>Witness: of three sessions with the last one ended, the second is closed; with the
  only session ended, nothing happens.\<close>

theorem closeActive_last_active_witness:
  "sessions sessionEnded = [0] \<and> \<not> Active (heap sessionEnded 0)
   \<and> closeActiveSession sessionEnded = sessionEnded
   \<and> sessions threeSessions = [0, 1, 2]
   \<and> Active (heap threeSessions 1) \<and> \<not> Active (heap threeSessions 2)
   \<and> closeActiveSession threeSessions
       = (emit [PtyClose 4, Kill 101, Wait 101] threeSessions)\<lparr>sessions := [0, 2]\<rparr>"
proof -
  have a: "\<forall>j. Suc 0 < j \<and> j < length (sessions threeSessions)
          \<longrightarrow> \<not> Active (heap threeSessions (sessions threeSessions ! j))"
  proof (intro allI impI)
    fix j assume "Suc 0 < j \<and> j < length (sessions threeSessions)"
    then have "j = 2" by (simp add: threeSessions_simps)
    then show "\<not> Active (heap threeSessions (sessions threeSessions ! j))"
      by (simp add: threeSessions_simps)
  qed
  show ?thesis
    using a closeActive_last_active[of sessionEnded 0] closeActive_last_active[of threeSessions "Suc 0"]
    by (simp add: sessionEnded_simps threeSessions_simps closeEvents_def)
qed

section \<open>Attaching to an ended session\<close>

text \<open>When the process state of the session is set and reports that the process has
  exited by itself, \<^verbatim>\<open>attachToSession\<close> prints the notice, waits for Enter and returns,
  and nothing else happens.\<close>

lemma attach_ended_guard:
  assumes "hasExited (heap w r)"
  shows "let w' = worldOf (attachToSession r env w)
         in attachToSession r env w = Returned w'
            \<and> out w' = out w @ [Print MsgSessionEnded, ReadLine]
            \<and> heap w' = heap w \<and> sessions w' = sessions w \<and> nextID w' = nextID w
            \<and> nextRef w' = nextRef w \<and> monitors w' = monitors w \<and> raw w' = raw w"
  using assms by (simp add: attachToSession_def Let_def)

lemma attach_ended_guard_example:
  "hasExited (heap sessionEnded 0)
   \<and> attachToSession 0 detachEnv sessionEnded
       = Returned (emit [Print MsgSessionEnded, ReadLine] sessionEnded)"
  by (simp add: sessionEnded_simps attachToSession_def)

lemma sessionKilled_simps:
  "\<not> Active (heap sessionKilled 0)"
  "ProcessState (Cmd (heap sessionKilled 0)) = Some \<lparr>Exited = False\<rparr>"
  "\<not> hasExited (heap sessionKilled 0)"
  "Alias (heap sessionKilled 0) = ''A''" "PTY (heap sessionKilled 0) = Some 3"
  "Scrollback (heap sessionKilled 0) = [104, 105]"
  by (simp_all add: sessionKilled_def monitorExit_def updSession_def hasExited_def
      oneSession_scrollback)
     (simp_all add: oneSession_def createSession_Started_simps init_def hostA_def)

text \<open>
  C8 (attach-on-ended guard). The process of the example session has been ended by a
  signal: the exit monitor has stored its process state and cleared \<^verbatim>\<open>Active\<close>. The guard
  of \<^verbatim>\<open>attachToSession\<close> tests \<^verbatim>\<open>ProcessState.Exited()\<close>, which is false for a process ended
  by a signal, so an attach does not print the notice: it clears the screen, prints the
  banner, replays the scrollback, sets the size of the pseudo-terminal and puts the
  terminal into raw mode, and leaves again only when the read of the pseudo-terminal
  fails.
\<close>

theorem attach_after_signal_not_guarded:
  "\<not> Active (heap sessionKilled 0)
   \<and> ProcessState (Cmd (heap sessionKilled 0)) = Some \<lparr>Exited = False\<rparr>
   \<and> attachToSession 0 deadPtyEnv sessionKilled
       = Returned (emit [Print MsgClear, Print (MsgConnectedBanner ''A''),
                         StdoutWrite [104, 105], Print MsgScrollbackEnd,
                         Setsize (Some 3) (24, 80), NotifyWinch, MakeRaw,
                         DrainStdin, Print MsgDetached, Restore, StopWinch] sessionKilled)
   \<and> Print MsgSessionEnded \<notin> set (out (worldOf (attachToSession 0 deadPtyEnv sessionKilled)))
   \<and> MakeRaw \<in> set (out (worldOf (attachToSession 0 deadPtyEnv sessionKilled)))"
proof -
  have r: "out sessionKilled = out oneSession" "raw sessionKilled = raw oneSession"
    by (simp_all add: sessionKilled_def monitorExit_def updSession_def)
  have o: "Print MsgSessionEnded \<notin> set (out oneSession)" "raw oneSession = False"
    by (simp_all add: oneSession_def createSession_def Let_def attachToSession_def hasExited_def
        detachEnv_def init_def ptyStep_def stdinStep_def updSession_def replayScrollback_def)
  have a: "attachToSession 0 deadPtyEnv sessionKilled
       = Returned (emit [Print MsgClear, Print (MsgConnectedBanner ''A''),
                         StdoutWrite [104, 105], Print MsgScrollbackEnd,
                         Setsize (Some 3) (24, 80), NotifyWinch, MakeRaw,
                         DrainStdin, Print MsgDetached, Restore, StopWinch] sessionKilled)"
    by (simp add: attachToSession_def Let_def sessionKilled_simps deadPtyEnv_def
        replayScrollback_def scrollbackToShow_def ScrollbackReplaySize_def ptyStep_def emit_def
        r o)
  show ?thesis
    by (simp add: a sessionKilled_simps r o)
qed

section \<open>The active flag\<close>

text \<open>
  C9 (one-way active transition). A session is created active, with its exit-monitor
  task running. Along every sequence of operations of the system, a session that is
  inactive stays inactive. One operation turns an active session inactive only if it
  is the exit-monitor task of that session, which is then no longer running; and a
  monitor that is not running for an allocated session never runs again, so the
  transition happens at most once.
\<close>

theorem active_one_way:
  "Active (heap (worldOf (createSession host (Started f p) env w)) (nextRef w))
   \<and> nextRef w \<in> set (monitors (worldOf (createSession host (Started f p) env w)))
   \<and> (step\<^sup>*\<^sup>* w1 w1' \<longrightarrow> r1 < nextRef w1 \<longrightarrow> \<not> Active (heap w1 r1) \<longrightarrow> \<not> Active (heap w1' r1))
   \<and> (step w2 w2' \<longrightarrow> r2 < nextRef w2 \<longrightarrow> Active (heap w2 r2) \<longrightarrow> \<not> Active (heap w2' r2) \<longrightarrow>
        (\<exists>ps. w2' = monitorExit r2 ps w2) \<and> r2 \<in> set (monitors w2) \<and> r2 \<notin> set (monitors w2'))
   \<and> (step\<^sup>*\<^sup>* w3 w3' \<longrightarrow> r3 < nextRef w3 \<longrightarrow> r3 \<notin> set (monitors w3) \<longrightarrow> r3 \<notin> set (monitors w3'))"
  using steps_frame(2)[of w1 w1' r1] steps_frame(3)[of w3 w3' r3] step_frame(4)[of w2 w2' r2]
  by (simp add: createSession_Started_simps)

text \<open>Witness: the monitor of the example session ends it; resuming the session afterwards
  leaves it inactive.\<close>

theorem active_one_way_witness:
  "step oneSession sessionEnded \<and> 0 < nextRef oneSession \<and> Active (heap oneSession 0)
   \<and> \<not> Active (heap sessionEnded 0) \<and> 0 \<in> set (monitors oneSession)
   \<and> 0 \<notin> set (monitors sessionEnded)
   \<and> step\<^sup>*\<^sup>* sessionEnded (worldOf (resumeSession 1 detachEnv sessionEnded))
   \<and> \<not> Active (heap (worldOf (resumeSession 1 detachEnv sessionEnded)) 0)
   \<and> 0 \<notin> set (monitors (worldOf (resumeSession 1 detachEnv sessionEnded)))"
proof -
  have s1: "step oneSession sessionEnded"
    unfolding sessionEnded_def by (rule step.monitor) (simp add: oneSession_simps)
  have s2: "step\<^sup>*\<^sup>* sessionEnded (worldOf (resumeSession 1 detachEnv sessionEnded))"
    by (rule r_into_rtranclp) (rule step.resume)
  show ?thesis
    using s1 s2
      active_one_way[of hostA 3 100 detachEnv init
        sessionEnded "worldOf (resumeSession 1 detachEnv sessionEnded)" 0
        oneSession sessionEnded 0
        sessionEnded "worldOf (resumeSession 1 detachEnv sessionEnded)" 0]
    by (simp add: oneSession_simps sessionEnded_simps)
qed

section \<open>The multi-host executor: empty command\<close>

text \<open>
  C10 (empty command). With at least one host selected, when the command line read from
  the operator is empty after \<^verbatim>\<open>strings.TrimSpace\<close>, \<^verbatim>\<open>executeMultiHost\<close> returns right
  after reading it: the prompt for the command and the read of the line are its only
  effects, so no display-mode prompt is shown, no process is spawned and nothing more is
  printed. With no host selected it prints the notice and waits for Enter.
\<close>

theorem empty_command_silent:
  "(hosts \<noteq> [] \<and> TrimSpace (nthLine input 0) = [] \<longrightarrow>
      executeMultiHost TrimSpace hosts input outcome order w
        = emit [Print MsgEnterCommand, ReadLine] w)
   \<and> (hosts = [] \<longrightarrow>
      executeMultiHost TrimSpace hosts input outcome order w
        = emit [Print MsgNoHosts, ReadLine] w)"
  by (simp add: executeMultiHost_def Let_def)

text \<open>Witness: the operator types two blanks and Enter.\<close>

theorem empty_command_silent_witness:
  "[hostA, hostB] \<noteq> []
   \<and> trimSpaceASCII (nthLine [[CHR '' '', CHR '' '', CHR 0x0A], ''2''] 0) = []
   \<and> executeMultiHost trimSpaceASCII [hostA, hostB] [[CHR '' '', CHR '' '', CHR 0x0A], ''2'']
        outcomeABC [1, 0] init
      = emit [Print MsgEnterCommand, ReadLine] init
   \<and> executeMultiHost trimSpaceASCII [] [[CHR '' '', CHR '' '', CHR 0x0A], ''2''] outcomeABC [] init
      = emit [Print MsgNoHosts, ReadLine] init"
proof -
  have t: "trimSpaceASCII (nthLine [[CHR '' '', CHR '' '', CHR 0x0A], ''2''] 0) = []"
    by (simp add: trimSpaceASCII_def isSpace_def)
  show ?thesis
    using t empty_command_silent[of "[hostA, hostB]" trimSpaceASCII
              "[[CHR '' '', CHR '' '', CHR 0x0A], ''2'']" outcomeABC "[1, 0]" init]
            empty_command_silent[of "[]" trimSpaceASCII
              "[[CHR '' '', CHR '' '', CHR 0x0A], ''2'']" outcomeABC "[]" init]
    by simp
qed

section \<open>The multi-host executor: collected mode\<close>

lemma collectedTask_eq:
  "collectedTask hosts c oc (results, w) i =
     ((if i < length hosts then results[i := hostResult hosts oc i] else results),
      emit (taskEvents hosts c oc i) w)"
  by (simp add: collectedTask_def hostResult_def taskEvents_def Let_def emit_def split: task_outcome.splits)

lemma fold_tasks:
  "foldl (collectedTask hosts c oc) (results, w) order =
     (foldl (\<lambda>rs i. if i < length hosts then rs[i := hostResult hosts oc i] else rs) results order,
      emit (concat (map (taskEvents hosts c oc) order)) w)"
proof (induction order arbitrary: results w)
  case Nil
  then show ?case by (simp add: emit_def)
next
  case (Cons i order)
  show ?case by (simp add: collectedTask_eq Cons.IH)
qed

lemma fold_update_length:
  "length (foldl (\<lambda>rs i. if i < n then rs[i := f i] else rs) results order) = length results"
  by (induction order arbitrary: results) simp_all

lemma fold_update_nth:
  "j < length results \<Longrightarrow> length results = n \<Longrightarrow>
   foldl (\<lambda>rs i. if i < n then rs[i := f i] else rs) results order ! j
     = (if j \<in> set order then f j else results ! j)"
proof (induction order arbitrary: results rule: rev_induct)
  case Nil
  then show ?case by simp
next
  case (snoc i order)
  then show ?case by (auto simp: fold_update_length nth_list_update)
qed

lemma fold_update_all:
  assumes "length results = n" and "{..<n} \<subseteq> set order"
  shows "foldl (\<lambda>rs i. if i < n then rs[i := f i] else rs) results order = map f [0..<n]"
proof (rule nth_equalityI)
  show "length (foldl (\<lambda>rs i. if i < n then rs[i := f i] else rs) results order) = length (map f [0..<n])"
    using assms by (simp add: fold_update_length)
next
  fix j assume "j < length (foldl (\<lambda>rs i. if i < n then rs[i := f i] else rs) results order)"
  then have j: "j < n" using assms by (simp add: fold_update_length)
  with assms have "j \<in> set order" by auto
  with j assms show "foldl (\<lambda>rs i. if i < n then rs[i := f i] else rs) results order ! j = map f [0..<n] ! j"
    by (simp add: fold_update_nth)
qed

text \<open>
  C7 (collected report), as the code has it. Let every task finish once, in any order.
  When \<^verbatim>\<open>wg.Wait()\<close> returns, the results array holds the result of each host at the
  index of the host, and what has been printed so far is the banner and, for each task
  that ran its command, a progress line with the alias of the host, in the order the
  tasks finished; no output of a host has been printed. The report printed then has one
  section for each host in the order of the selection, whatever the order in which the
  tasks finished; the section of a host whose spawn failed shows the error and the empty
  output, and the sections of the other hosts are not affected.
\<close>

theorem collected_report_in_selection_order:
  assumes "distinct order" and "set order = {..<length hosts}"
  shows "let (results, w') = collectResults hosts command outcome order w
         in results = map (hostResult hosts outcome) [0..<length hosts]
            \<and> out w' = out w @ [Print MsgClear, Print MsgCollectingHeader]
                        @ concat (map (taskEvents hosts command outcome) order)
            \<and> out (executeMultiHostCollected hosts command outcome order w)
                = out w' @ [Print MsgClear, Print (MsgResultsHeader command)]
                  @ concat (map (\<lambda>i. resultSection (hostResult hosts outcome i)) [0..<length hosts])
                  @ [Print MsgSeparator, Print MsgPressEnter, ReadLine]"
proof -
  have "foldl (\<lambda>rs i. if i < length hosts then rs[i := hostResult hosts outcome i] else rs)
          (replicate (length hosts) \<lparr>ResAlias = [], Output = [], Error = None\<rparr>) order
        = map (hostResult hosts outcome) [0..<length hosts]"
    using assms(2) by (intro fold_update_all) simp_all
  then show ?thesis
    by (simp add: collectResults_def executeMultiHostCollected_def fold_tasks displayResults_def
        map_concat comp_def emit_def)
qed

text \<open>Witness: hosts A, B, C, where the spawn of B fails and the tasks finish in the order
  C, A, B.\<close>

theorem collected_report_witness:
  "distinct [2, 0, 1::nat] \<and> set [2, 0, 1] = {..<length [hostA, hostB, hostC]}
   \<and> out (executeMultiHostCollected [hostA, hostB, hostC] ''uptime'' outcomeABC [2, 0, 1] init)
     = [Print MsgClear, Print MsgCollectingHeader,
        Spawn [''ssh'', ''-D'', ''1080'', ''C'', ''uptime''], Print (MsgTick ''C''),
        Spawn [''ssh'', ''-L'', ''8080:remote:80'', ''A'', ''uptime''], Print (MsgTick ''A''),
        Spawn [''ssh'', ''B'', ''uptime''],
        Print MsgClear, Print (MsgResultsHeader ''uptime''),
        Print MsgSeparator, Print (MsgHost ''A''), Print (MsgOutput ''a''),
        Print MsgSeparator, Print (MsgHost ''B''), Print (MsgErrorLine ''no pty''), Print (MsgOutput []),
        Print MsgSeparator, Print (MsgHost ''C''), Print (MsgOutput ''c''),
        Print MsgSeparator, Print MsgPressEnter, ReadLine]"
proof -
  have d: "distinct [2, 0, 1::nat]" by simp
  have s: "set [2, 0, 1] = {..<length [hostA, hostB, hostC]}" by auto
  have u: "[0..<3] = [0, 1, 2]" by (simp add: upt_rec)
  from collected_report_in_selection_order[OF d s, of "''uptime''" outcomeABC init]
  show ?thesis using d s
    by (simp add: split_beta u hostResult_def taskEvents_def outcomeABC_def resultSection_def
        taskArgs_def buildSSHArgs_def forwardArgs_def hostA_def hostB_def hostC_def init_def)
qed

text \<open>The claim as written says that nothing is printed until all tasks have finished;
  with one host, the progress line of the host has been printed when \<^verbatim>\<open>wg.Wait()\<close>
  returns.\<close>

theorem collected_tick_counterexample:
  "Print (MsgTick ''A'') \<in> set (out (snd (collectResults [hostA] ''uptime'' (\<lambda>i. Ran ''a'') [0] init)))"
  by (simp add: collectResults_def collectedTask_def Let_def hostA_def)

section \<open>Session numbers\<close>

text \<open>The menu labels the session at index \<open>i\<close> with \<open>i + 1\<close>, the command \<^verbatim>\<open>!num\<close> attaches
  to the session at index \<open>num - 1\<close>, and removing index \<open>k\<close> moves every later session one
  position down; the registry never holds a session twice.\<close>

lemma showMenu_label_is_position:
  "i < length (sessions w) \<Longrightarrow>
     showMenuSessions w ! Suc i =
       Print (MsgMenuSession (Suc i) (Alias (heap w (sessions w ! i)))
                (status (heap w (sessions w ! i))))"
  by (cases "sessions w")
     (simp_all add: showMenuSessions_def nth_append nth_enumerate_eq del: enumerate_simps)

lemma resume_by_position:
  "i < length (sessions w) \<Longrightarrow>
     resumeSession (int (Suc i)) env w = attachToSession (sessions w ! i) env w"
  by (simp add: resumeSession_def)

lemma removal_renumbers:
  "k < length xs \<Longrightarrow> j < length xs - 1 \<Longrightarrow>
     (take k xs @ drop (Suc k) xs) ! j = (if j < k then xs ! j else xs ! Suc j)"
  by (auto simp: nth_append min_def)

lemma removal_distinct: "distinct xs \<Longrightarrow> distinct (take k xs @ drop (Suc k) xs)"
  using set_take_disj_set_drop_if_distinct[of xs k "Suc k"] by simp

lemma closeActiveLoop_sessions:
  "set (sessions (closeActiveLoop n w)) \<subseteq> set (sessions w)
   \<and> (distinct (sessions w) \<longrightarrow> distinct (sessions (closeActiveLoop n w)))"
proof (induction n)
  case 0
  then show ?case by simp
next
  case (Suc n)
  have sub: "set (take n (sessions w) @ drop (Suc n) (sessions w)) \<subseteq> set (sessions w)"
    using set_take_subset[of n "sessions w"] set_drop_subset[of "Suc n" "sessions w"] by auto
  have dist: "distinct (sessions w) \<longrightarrow> distinct (take n (sessions w) @ drop (Suc n) (sessions w))"
    using removal_distinct[of "sessions w" n] by blast
  show ?case
  proof (cases "Active (heap w (sessions w ! n))")
    case True
    with sub dist show ?thesis by (simp add: Let_def del: set_append distinct_append)
  next
    case False
    with Suc show ?thesis by (simp add: Let_def)
  qed
qed

lemma step_registry_distinct:
  assumes "step w w'"
    and "distinct (sessions w) \<and> (\<forall>r \<in> set (sessions w). r < nextRef w)"
  shows "distinct (sessions w') \<and> (\<forall>r \<in> set (sessions w'). r < nextRef w')"
  using assms
proof (induction rule: step.induct)
  case (create w host sel env)
  then show ?case by (cases sel) (auto simp: createSession_Started_simps)
next
  case (resume w num env)
  then show ?case by (simp add: resumeSession_def)
next
  case (closeActive w)
  with closeActiveLoop_sessions[of "length (sessions w)" w] show ?case
    by (auto simp: closeActiveSession_def)
next
  case (closeAll w)
  then show ?case by (simp add: closeAllSessions_def)
next
  case (monitor r w ps)
  then show ?case by (simp add: monitorExit_def updSession_def)
next
  case (multi w TrimSpace hosts input outcome order)
  then show ?case by simp
next
  case (display w evs)
  then show ?case by simp
qed

lemma reachable_registry_distinct:
  "reachable w \<Longrightarrow> distinct (sessions w) \<and> (\<forall>r \<in> set (sessions w). r < nextRef w)"
  unfolding reachable_def
proof (induction rule: rtranclp_induct)
  case base
  then show ?case by (simp add: init_def)
next
  case (step y z)
  from step_registry_distinct[OF step.hyps(2) step.IH] show ?case .
qed

lemma closeOne: "closeActiveSession oneSession = 
   (emit [PtyClose 3, Kill 100, Wait 100] oneSession)\<lparr>sessions := []\<rparr>"
  using closeActiveLoop_last[of 0 "Suc 0" oneSession]
  by (simp add: closeActiveSession_def oneSession_simps closeEvents_def)
     (simp add: oneSession_def createSession_Started_simps init_def)

lemma afterReconnect_simps:
  "sessions afterReconnect = [Suc 0]" "ID (heap afterReconnect (Suc 0)) = 2"
  "Alias (heap afterReconnect (Suc 0)) = ''A''" "\<not> hasExited (heap afterReconnect (Suc 0))"
  by (simp_all add: afterReconnect_def createSession_Started_simps closeOne oneSession_simps hasExited_def hostA_def)

text \<open>
  C4 (session renumbering). After the operator has connected to host A, closed that
  session and connected to A again, the registry holds one session, at position 1 with
  the stored id 2. The menu shows it as \<^verbatim>\<open>[!1]\<close>, and \<^verbatim>\<open>!2\<close> is rejected as an invalid
  session number; the list of active session forwards of \<^verbatim>\<open>manageForwards\<close> shows the
  same session as \<^verbatim>\<open>[!2]\<close>, the stored id instead of the position.
\<close>

theorem forward_label_is_id:
  "showMenuSessions afterReconnect
     = [Print MsgActiveSessions, Print (MsgMenuSession 1 ''A'' ''alive''), Print MsgBlankLine]
   \<and> forwardSessionLines [hostA] afterReconnect
     = [Print (MsgForwardSession 2 ''A'' ''alive''),
        Print (MsgForward \<lparr>Type = ''L'', LocalPort = ''8080'', RemoteAddr = ''remote:80''\<rparr>)]
   \<and> resumeSession 2 detachEnv afterReconnect
     = Returned (emit [Print (MsgInvalidSessionNumber 2 1), Print MsgPressEnterContinue, ReadLine]
                   afterReconnect)"
  by (simp add: showMenuSessions_def forwardSessionLines_def resumeSession_def
      afterReconnect_simps status_def Let_def) (simp add: hostA_def)

end
